theory Spec2Isabelle
  imports Complex_Main "HOL-Library.Log_Nat"
begin

section \<open>Data model of the retrieval store\<close>

text \<open>
  The development embeds \<^verbatim>\<open>utils/rag_utils.py\<close> (class \<^verbatim>\<open>SimpleRAGStore\<close>,
  \<^verbatim>\<open>create_rag_store\<close>, \<^verbatim>\<open>semantic_search\<close>) and \<^verbatim>\<open>tools/rag_search.py\<close>
  (\<^verbatim>\<open>search_documents\<close>, \<^verbatim>\<open>multi_query_search\<close>, \<^verbatim>\<open>find_similar_documents\<close>).

  Conventions of the embedding:
  \<^item> a Python \<^verbatim>\<open>str\<close> is a \<open>string\<close>; its characters are read as code points below 256;
  \<^item> a finite \<^verbatim>\<open>float\<close> or \<^verbatim>\<open>float32\<close> value is the rational number it denotes; the
    arithmetic that the code itself does on doubles (\<open>+\<close>, \<open>/\<close>, \<^verbatim>\<open>round\<close>) rounds
    every result to the nearest double, as IEEE 754 does (function \<open>fl\<close> below);
    infinities and NaN are not modelled;
  \<^item> an embedding is a list of rationals, a two-dimensional array a list of rows; the
    distances of the vector index are exact, as the spec describes them;
  \<^item> the objects are mutated in place, so an operation that can raise returns the
    raised error together with the state the object is left in;
  \<^item> the sentence-transformer model (\<^verbatim>\<open>self._get_model().encode\<close>) is a parameter of
    every operation: it maps a batch of texts to a list of vectors, or fails.
\<close>

type_synonym vec = "rat list"

datatype error =
    ValueError string
  | AssertionError
  | IndexError
  | ZeroDivisionError
  | DimensionMismatch
  | EmbeddingProviderError

text \<open>The embedding provider: \<open>None\<close> when loading the model or encoding raises.\<close>

type_synonym encoder = "string list \<Rightarrow> vec list option"

subsection \<open>The array construction of numpy\<close>

text \<open>
  \<^verbatim>\<open>np.array(rows).astype('float32')\<close>: rows of different lengths cannot form a
  two-dimensional array and the expression raises \<^verbatim>\<open>ValueError\<close>.
\<close>

definition rectangular :: "vec list \<Rightarrow> bool" where
  "rectangular rows = (case rows of [] \<Rightarrow> True | r # rs \<Rightarrow> list_all (\<lambda>v. length v = length r) rs)"

definition np_array :: "vec list \<Rightarrow> error + vec list" where
  "np_array rows =
     (if rectangular rows then Inr rows
      else Inl (ValueError ''setting an array element with a sequence''))"

text \<open>\<^verbatim>\<open>arr.shape[1]\<close>: the array of an empty list has the shape \<^verbatim>\<open>(0,)\<close>.\<close>

definition shape1 :: "vec list \<Rightarrow> error + nat" where
  "shape1 arr = (case arr of [] \<Rightarrow> Inl IndexError | r # _ \<Rightarrow> Inr (length r))"

subsection \<open>The vector index\<close>

text \<open>
  Modelled from the spec: the class \<^verbatim>\<open>faiss.IndexFlatL2\<close> is a library outside the
  repository; the spec describes it as the VectorIndex (section 4.2). \<open>add\<close> appends
  the vectors, and fails with \<open>DimensionMismatch\<close> without mutation when their
  dimension is not the dimension the index was created with. \<open>search\<close> computes the
  squared Euclidean distance from the query to every stored vector and returns the
  \<open>k\<close> smallest by ascending distance, ties by ascending insertion id, clamped to
  the size of the index. The two argument checks of \<open>search\<close> (the query has the
  dimension of the index, \<open>k\<close> is positive) are the assertions of the library's
  Python wrapper. An array of queries without rows is taken to have the dimension of
  the index; the answer then has no rows either.
\<close>

record IndexFlatL2 =
  index_d :: nat
  index_vectors :: "vec list"

definition new_index :: "nat \<Rightarrow> IndexFlatL2" where
  "new_index dimension = \<lparr>index_d = dimension, index_vectors = []\<rparr>"

definition ntotal :: "IndexFlatL2 \<Rightarrow> nat" where
  "ntotal ix = length (index_vectors ix)"

definition index_add :: "IndexFlatL2 \<Rightarrow> vec list \<Rightarrow> error + IndexFlatL2" where
  "index_add ix arr =
     (case arr of
        [] \<Rightarrow> Inl (ValueError ''not enough values to unpack'')
      | r # _ \<Rightarrow>
          if length r \<noteq> index_d ix then Inl DimensionMismatch
          else Inr (ix\<lparr>index_vectors := index_vectors ix @ arr\<rparr>))"

definition l2sq :: "vec \<Rightarrow> vec \<Rightarrow> rat" where
  "l2sq q v = sum_list (map (\<lambda>(a, b). (a - b) * (a - b)) (zip q v))"

definition knn :: "IndexFlatL2 \<Rightarrow> vec \<Rightarrow> nat \<Rightarrow> (rat \<times> int) list" where
  "knn ix q k =
     take k (sort_key fst (zip (map (l2sq q) (index_vectors ix)) (map int [0..<length (index_vectors ix)])))"

definition index_search :: "IndexFlatL2 \<Rightarrow> vec list \<Rightarrow> int \<Rightarrow> error + (rat list list \<times> int list list)" where
  "index_search ix x k =
     (case x of
        [] \<Rightarrow> if \<not> k > 0 then Inl AssertionError else Inr ([], [])
      | r # _ \<Rightarrow>
          if length r \<noteq> index_d ix then Inl AssertionError
          else if \<not> k > 0 then Inl AssertionError
          else Inr (map (\<lambda>q. map fst (knn ix q (nat k))) x,
                    map (\<lambda>q. map snd (knn ix q (nat k))) x))"

subsection \<open>The store\<close>

record store =
  documents :: "string list"
  embeddings :: "vec list"
  index :: "IndexFlatL2 option"

record result =
  rank :: nat
  document :: string
  score :: rat
  distance :: rat

text \<open>\<^verbatim>\<open>SimpleRAGStore.__init__\<close>\<close>

definition init_store :: store where
  "init_store = \<lparr>documents = [], embeddings = [], index = None\<rparr>"

text \<open>
  \<^verbatim>\<open>SimpleRAGStore.add_documents\<close>. The result is the raised error (\<open>None\<close> on a
  normal return) and the store as the call leaves it.
\<close>

definition add_documents :: "encoder \<Rightarrow> store \<Rightarrow> string list \<Rightarrow> error option \<times> store" where
  "add_documents enc s docs =
     (if docs = [] then (None, s)
      else
        let s1 = s\<lparr>documents := documents s @ docs\<rparr> in
        case enc docs of
          None \<Rightarrow> (Some EmbeddingProviderError, s1)
        | Some new_embeddings \<Rightarrow>
            let s2 = s1\<lparr>embeddings := embeddings s1 @ new_embeddings\<rparr> in
            case np_array (embeddings s2) of
              Inl e \<Rightarrow> (Some e, s2)
            | Inr embeddings_array \<Rightarrow>
                (case shape1 embeddings_array of
                   Inl e \<Rightarrow> (Some e, s2)
                 | Inr dimension \<Rightarrow>
                     let s3 = (case index s2 of
                                 None \<Rightarrow> s2\<lparr>index := Some (new_index dimension)\<rparr>
                               | Some _ \<Rightarrow> s2);
                         ix = (case index s3 of None \<Rightarrow> new_index dimension | Some i \<Rightarrow> i)
                     in case index_add ix embeddings_array of
                          Inl e \<Rightarrow> (Some e, s3)
                        | Inr ix' \<Rightarrow> (None, s3\<lparr>index := Some ix'\<rparr>)))"

text \<open>\<^verbatim>\<open>SimpleRAGStore.clear\<close>\<close>

definition clear :: "store \<Rightarrow> store" where
  "clear s = s\<lparr>documents := [], embeddings := [], index := None\<rparr>"

subsection \<open>The score transform and the result loop\<close>

text \<open>
  Rounding to the nearest integer, a tie going to the even one.
\<close>

definition round_half_even :: "rat \<Rightarrow> int" where
  "round_half_even x =
     (let f = \<lfloor>x\<rfloor>; r = x - of_int f in
      if r < 1 / 2 then f
      else if r > 1 / 2 then f + 1
      else if even f then f else f + 1)"

text \<open>
  The arithmetic of Python's \<^verbatim>\<open>float\<close>, the IEEE 754 binary64 format: the result of
  an operation is the exact result rounded to the nearest double, a tie going to the
  double with the even significand. \<open>flog2 x\<close> is the exponent of the binade of a
  positive \<open>x\<close>, \<open>fexp x\<close> the exponent after the cut at the subnormal range; the
  doubles next to \<open>x\<close> are the multiples of \<open>2 powi (fexp x - 52)\<close>. A magnitude
  of \<open>2 ^ 1024\<close> or more, where the format overflows to infinity, is outside the
  model; the float32 distances that the code handles are far below.
\<close>

definition flog2 :: "rat \<Rightarrow> int" where
  "flog2 x =
     (let (p, q) = quotient_of x; e = bitlen p - bitlen q in
      if 2 powi e \<le> x then e else e - 1)"

definition fexp :: "rat \<Rightarrow> int" where
  "fexp x = max (flog2 x) (- 1022)"

definition fl :: "rat \<Rightarrow> rat" where
  "fl x =
     (if x = 0 then 0
      else
        let u = 2 powi (fexp \<bar>x\<bar> - 52) in
        sgn x * of_int (round_half_even (\<bar>x\<bar> / u)) * u)"

text \<open>
  Python's \<^verbatim>\<open>round(x, 4)\<close> of a double: the exact value of \<open>x\<close> is rounded to 4
  decimal places, a tie going to the even digit, and the result is the double nearest
  to that decimal.
\<close>

definition py_round4 :: "rat \<Rightarrow> rat" where
  "py_round4 x = fl (of_int (round_half_even (x * 10000)) / 10000)"

text \<open>\<^verbatim>\<open>1.0 / (1.0 + float(distance))\<close>: a sum and a quotient of doubles.\<close>

definition similarity_score :: "rat \<Rightarrow> rat" where
  "similarity_score dst = fl (1 / fl (1 + dst))"

text \<open>\<^verbatim>\<open>xs[i]\<close> of Python: a negative index counts from the end.\<close>

definition py_index :: "'a list \<Rightarrow> int \<Rightarrow> error + 'a" where
  "py_index xs i =
     (if 0 \<le> i \<and> i < int (length xs) then Inr (xs ! nat i)
      else if i < 0 \<and> - int (length xs) \<le> i then Inr (xs ! nat (int (length xs) + i))
      else Inl IndexError)"

text \<open>
  The loop \<^verbatim>\<open>for i, (distance, idx) in enumerate(zip(distances[0], indices[0]))\<close> of
  \<^verbatim>\<open>search\<close>; \<open>i\<close> is the position of the head of the remaining pairs.
\<close>

fun format_results :: "string list \<Rightarrow> nat \<Rightarrow> (rat \<times> int) list \<Rightarrow> error + result list" where
  "format_results docs i [] = Inr []"
| "format_results docs i ((dst, idx) # rest) =
     (if idx < int (length docs) then
        (if fl (1 + dst) = 0 then Inl ZeroDivisionError
         else case py_index docs idx of
                Inl e \<Rightarrow> Inl e
              | Inr doc \<Rightarrow>
                  (case format_results docs (i + 1) rest of
                     Inl e \<Rightarrow> Inl e
                   | Inr rs \<Rightarrow>
                       Inr (\<lparr>rank = i + 1, document = doc,
                             score = py_round4 (similarity_score dst),
                             distance = dst\<rparr> # rs)))
      else format_results docs (i + 1) rest)"

text \<open>\<^verbatim>\<open>SimpleRAGStore.search\<close>\<close>

definition search :: "encoder \<Rightarrow> store \<Rightarrow> string \<Rightarrow> int \<Rightarrow> error + result list" where
  "search enc s query top_k =
     (case index s of
        None \<Rightarrow> Inr []
      | Some ix \<Rightarrow>
          if length (documents s) = 0 then Inr []
          else
            case enc [query] of
              None \<Rightarrow> Inl EmbeddingProviderError
            | Some query_embedding \<Rightarrow>
                (case np_array query_embedding of
                   Inl e \<Rightarrow> Inl e
                 | Inr qarr \<Rightarrow>
                     let top_k' = min top_k (int (length (documents s))) in
                     case index_search ix qarr top_k' of
                       Inl e \<Rightarrow> Inl e
                     | Inr (distances, indices) \<Rightarrow>
                         (case distances of
                            [] \<Rightarrow> Inl IndexError
                          | d0 # _ \<Rightarrow>
                              (case indices of
                                 [] \<Rightarrow> Inl IndexError
                               | i0 # _ \<Rightarrow> format_results (documents s) 0 (zip d0 i0)))))"

text \<open>\<^verbatim>\<open>create_rag_store\<close> and \<^verbatim>\<open>semantic_search\<close>\<close>

definition create_rag_store :: "encoder \<Rightarrow> string list \<Rightarrow> error + store" where
  "create_rag_store enc docs =
     (if docs \<noteq> [] then
        (case add_documents enc init_store docs of
           (Some e, _) \<Rightarrow> Inl e
         | (None, s) \<Rightarrow> Inr s)
      else Inr init_store)"

definition semantic_search :: "encoder \<Rightarrow> string \<Rightarrow> string list \<Rightarrow> int \<Rightarrow> error + result list" where
  "semantic_search enc query docs top_k =
     (case create_rag_store enc docs of
        Inl e \<Rightarrow> Inl e
      | Inr s \<Rightarrow> search enc s query top_k)"

section \<open>The search tools\<close>

text \<open>
  \<^verbatim>\<open>str.isspace\<close> on the code points below 256, and \<^verbatim>\<open>str.strip()\<close>.
\<close>

definition is_space :: "char \<Rightarrow> bool" where
  "is_space c =
     (let n = (of_char c :: nat) in
      (9 \<le> n \<and> n \<le> 13) \<or> (28 \<le> n \<and> n \<le> 32) \<or> n = 133 \<or> n = 160)"

definition py_strip :: "string \<Rightarrow> string" where
  "py_strip s = rev (dropWhile is_space (rev (dropWhile is_space s)))"

record search_output =
  query :: string
  total_documents :: nat
  returned_results :: nat
  results :: "result list"

text \<open>\<^verbatim>\<open>search_documents\<close>; the \<^verbatim>\<open>except\<close> clause logs and raises again.\<close>

definition search_documents :: "encoder \<Rightarrow> string \<Rightarrow> string list \<Rightarrow> int \<Rightarrow> error + search_output" where
  "search_documents enc q docs top_k =
     (if q = [] \<or> py_strip q = [] then Inl (ValueError ''Query cannot be empty'')
      else if docs = [] \<or> length docs = 0 then Inl (ValueError ''Documents list cannot be empty'')
      else
        case semantic_search enc q docs top_k of
          Inl e \<Rightarrow> Inl e
        | Inr rs \<Rightarrow>
            Inr \<lparr>query = q, total_documents = length docs,
                 returned_results = length rs, results = rs\<rparr>)"

text \<open>
  An entry of the dictionary \<^verbatim>\<open>all_results\<close> of \<^verbatim>\<open>multi_query_search\<close>: the key
  \<^verbatim>\<open>"error"\<close> is present in the entries written by the \<^verbatim>\<open>except\<close> branch only,
  where it holds \<^verbatim>\<open>str(e)\<close> of the error kept here.
\<close>

record query_entry =
  entry_query :: string
  entry_error :: "error option"
  entry_results :: "result list"

record multi_output =
  total_queries :: nat
  multi_total_documents :: nat
  multi_results :: "(string \<times> query_entry) list"

text \<open>\<^verbatim>\<open>str(n)\<close> of a natural number, for the keys \<^verbatim>\<open>f"query_{idx+1}"\<close>.\<close>

fun str_nat :: "nat \<Rightarrow> string" where
  "str_nat n =
     (if n < 10 then [char_of (48 + n)]
      else str_nat (n div 10) @ [char_of (48 + n mod 10)])"

declare str_nat.simps [simp del]

text \<open>
  The loop \<^verbatim>\<open>for idx, query in enumerate(queries)\<close>: the dictionary is the list of
  its items in insertion order (the keys are distinct). \<open>try_search\<close> is the body of
  the loop, the \<^verbatim>\<open>try\<close> with its \<^verbatim>\<open>except\<close> branch.
\<close>

definition try_search :: "encoder \<Rightarrow> store \<Rightarrow> int \<Rightarrow> string \<Rightarrow> query_entry" where
  "try_search enc st top_k q =
     (case search enc st q top_k of
        Inr rs \<Rightarrow> \<lparr>entry_query = q, entry_error = None, entry_results = rs\<rparr>
      | Inl e \<Rightarrow> \<lparr>entry_query = q, entry_error = Some e, entry_results = []\<rparr>)"

fun query_loop :: "encoder \<Rightarrow> store \<Rightarrow> int \<Rightarrow> nat \<Rightarrow> string list \<Rightarrow> (string \<times> query_entry) list" where
  "query_loop enc st top_k idx [] = []"
| "query_loop enc st top_k idx (q # qs) =
     (''query_'' @ str_nat (idx + 1), try_search enc st top_k q)
     # query_loop enc st top_k (idx + 1) qs"

text \<open>\<^verbatim>\<open>multi_query_search\<close>\<close>

definition multi_query_search :: "encoder \<Rightarrow> string list \<Rightarrow> string list \<Rightarrow> int \<Rightarrow> error + multi_output" where
  "multi_query_search enc queries docs top_k =
     (if queries = [] \<or> docs = [] then
        Inl (ValueError ''Both queries and documents must be provided'')
      else
        case create_rag_store enc docs of
          Inl e \<Rightarrow> Inl e
        | Inr st \<Rightarrow>
            Inr \<lparr>total_queries = length queries,
                 multi_total_documents = length docs,
                 multi_results = query_loop enc st top_k 0 queries\<rparr>)"

record similar_output =
  target_document :: string
  corpus_size :: nat
  similar_documents :: "result list"

text \<open>\<^verbatim>\<open>find_similar_documents\<close>\<close>

definition find_similar_documents :: "encoder \<Rightarrow> string \<Rightarrow> string list \<Rightarrow> int \<Rightarrow> error + similar_output" where
  "find_similar_documents enc target_doc docs top_k =
     (if target_doc = [] \<or> docs = [] then
        Inl (ValueError ''Target document and documents list must be provided'')
      else
        case semantic_search enc target_doc docs top_k of
          Inl e \<Rightarrow> Inl e
        | Inr rs \<Rightarrow>
            Inr \<lparr>target_document =
                   (if length target_doc > 200 then take 200 target_doc @ ''...'' else target_doc),
                 corpus_size = length docs,
                 similar_documents = rs\<rparr>)"

section \<open>Embedding providers used in the examples\<close>

text \<open>A provider that always fails, and two that embed each text on its own.\<close>

definition failing_encoder :: encoder where
  "failing_encoder docs = None"

text \<open>One coordinate: the length of the text.\<close>

definition length_encoder :: encoder where
  "length_encoder docs = Some (map (\<lambda>t. [of_nat (length t)]) docs)"

text \<open>As many coordinates as the text has characters: the dimension varies.\<close>

definition ragged_encoder :: encoder where
  "ragged_encoder docs = Some (map (\<lambda>t. replicate (length t) 1) docs)"

text \<open>
  The store that two calls of \<open>add_documents\<close> with \<open>length_encoder\<close> leave,
  the first with the document \<open>''a''\<close>, the second with \<open>''bb''\<close>.
\<close>

definition two_adds :: store where
  "two_adds = \<lparr>documents = [''a'', ''bb''], embeddings = [[1], [2]],
     index = Some \<lparr>index_d = 1, index_vectors = [[1], [1], [2]]\<rparr>\<rparr>"

text \<open>
  The store after the first of the two calls. The provider \<open>ragged_encoder\<close> embeds
  \<open>''a''\<close> in the same way, so this is also the store after its first call.
\<close>

definition one_add :: store where
  "one_add = \<lparr>documents = [''a''], embeddings = [[1]],
     index = Some \<lparr>index_d = 1, index_vectors = [[1]]\<rparr>\<rparr>"

text \<open>
  Invariant I1 of the spec: the corpus, the stored embeddings and the vector index
  have the same length.
\<close>

definition index_size :: "store \<Rightarrow> nat" where
  "index_size s = (case index s of None \<Rightarrow> 0 | Some ix \<Rightarrow> ntotal ix)"

definition I1 :: "store \<Rightarrow> bool" where
  "I1 s = (length (documents s) = length (embeddings s) \<and> length (embeddings s) = index_size s)"

text \<open>
  The messages of the \<^verbatim>\<open>ValueError\<close>s that the libraries raise, as opposed to the
  ones the tools raise themselves.
\<close>

definition library_message :: "string \<Rightarrow> bool" where
  "library_message m =
     (m = ''setting an array element with a sequence'' \<or> m = ''not enough values to unpack'')"

text \<open>
  A provider that fails on a batch containing the empty text, and the store it builds
  from the documents \<open>''x''\<close> and \<open>''abcd''\<close>.
\<close>

definition picky_encoder :: encoder where
  "picky_encoder docs = (if [] \<in> set docs then None else length_encoder docs)"

definition picky_store :: store where
  "picky_store = \<lparr>documents = [''x'', ''abcd''], embeddings = [[1], [4]],
     index = Some \<lparr>index_d = 1, index_vectors = [[1], [4]]\<rparr>\<rparr>"

text \<open>The largest finite float32.\<close>

definition FLT_MAX :: rat where
  "FLT_MAX = (2 ^ 24 - 1) * 2 ^ 104"

section \<open>Auxiliary facts\<close>

subsection \<open>The index, the rounding and the result loop\<close>

lemma l2sq_nonneg: "0 \<le> l2sq q v"
  unfolding l2sq_def by (rule sum_list_nonneg) auto

lemma knn_length: "length (knn ix q k) = min k (length (index_vectors ix))"
  by (simp add: knn_def)

lemma knn_sorted: "sorted (map fst (knn ix q k))"
  unfolding knn_def by (simp add: take_map [symmetric] sorted_wrt_take)

lemma knn_elem:
  assumes "(dst, idx) \<in> set (knn ix q k)"
  shows "0 \<le> dst \<and> 0 \<le> idx \<and> idx < int (length (index_vectors ix))"
proof -
  from assms have "(dst, idx) \<in> set (zip (map (l2sq q) (index_vectors ix)) (map int [0..<length (index_vectors ix)]))"
    unfolding knn_def by (auto dest: in_set_takeD)
  then have "dst \<in> set (map (l2sq q) (index_vectors ix))" and "idx \<in> set (map int [0..<length (index_vectors ix)])"
    by (auto dest: set_zip_leftD set_zip_rightD)
  then show ?thesis by (auto simp: l2sq_nonneg)
qed

lemma round_half_even_mono:
  assumes "x \<le> y" shows "round_half_even x \<le> round_half_even y"
proof (cases "\<lfloor>x\<rfloor> = \<lfloor>y\<rfloor>")
  case True
  then show ?thesis using assms unfolding round_half_even_def Let_def by auto
next
  case False
  with assms have lt: "\<lfloor>x\<rfloor> < \<lfloor>y\<rfloor>" using floor_mono[OF assms] by linarith
  have "round_half_even x \<le> \<lfloor>x\<rfloor> + 1" unfolding round_half_even_def Let_def by auto
  moreover have "\<lfloor>y\<rfloor> \<le> round_half_even y" unfolding round_half_even_def Let_def by auto
  ultimately show ?thesis using lt by linarith
qed

lemma round_half_even_of_int: "round_half_even (of_int n) = n"
  unfolding round_half_even_def Let_def by simp

lemma round_half_even_zero: "0 \<le> x \<Longrightarrow> x < 1 / 2 \<Longrightarrow> round_half_even x = 0"
proof -
  assume a: "0 \<le> x" "x < 1 / 2"
  then have "\<lfloor>x\<rfloor> = 0" by (simp add: floor_eq_iff)
  with a show ?thesis unfolding round_half_even_def Let_def by simp
qed

lemma pow2_le: "a \<le> b \<Longrightarrow> (2::rat) powi a \<le> 2 powi b"
  by (rule power_int_increasing) simp_all

lemma pow2_less_exp: "(2::rat) powi a < 2 powi b \<Longrightarrow> a < b"
  using pow2_le [of b a] by (cases "a < b") auto

lemma pow2_of_int_bounds:
  assumes "0 < (p::int)"
  shows "(2::rat) powi (bitlen p - 1) \<le> of_int p" and "of_int p < (2::rat) powi bitlen p"
proof -
  from bitlen_bounds [OF assms] have b: "2 ^ nat (bitlen p - 1) \<le> p" "p < 2 ^ nat (bitlen p)"
    by auto
  from assms have one: "1 \<le> bitlen p" by (auto simp: bitlen_alt_def)
  have "(of_int (2 ^ nat (bitlen p - 1)) :: rat) \<le> of_int p" using b(1) by (simp only: of_int_le_iff)
  with one show "(2::rat) powi (bitlen p - 1) \<le> of_int p"
    by (simp add: power_int_nonneg_exp)
  have "(of_int p :: rat) < of_int (2 ^ nat (bitlen p))" using b(2) by (simp only: of_int_less_iff)
  with one show "of_int p < (2::rat) powi bitlen p"
    by (simp add: power_int_nonneg_exp)
qed

lemma flog2_bracket:
  assumes "0 < x"
  shows "2 powi flog2 x \<le> x \<and> x < 2 powi (flog2 x + 1)"
proof -
  obtain p q where pq: "quotient_of x = (p, q)" by force
  then have q: "0 < q" by (rule quotient_of_denom_pos)
  have x: "x = of_int p / of_int q" using pq by (rule quotient_of_div)
  with assms q have p: "0 < p" by (simp add: zero_less_divide_iff)
  define e where "e = bitlen p - bitlen q"
  note bp = pow2_of_int_bounds [OF p] and bq = pow2_of_int_bounds [OF q]
  have qpos: "(0::rat) < of_int q" using q by simp
  have "x < 2 powi bitlen p / 2 powi (bitlen q - 1)"
    unfolding x using bp(2) bq(1) p
    by (intro frac_less) auto
  also have "\<dots> = 2 powi (e + 1)"
    by (simp add: e_def power_int_diff [symmetric] algebra_simps)
  finally have hi: "x < 2 powi (e + 1)" .
  have "2 powi (e - 1) = (2::rat) powi (bitlen p - 1) / 2 powi bitlen q"
    by (simp add: e_def power_int_diff [symmetric] algebra_simps)
  also have "\<dots> \<le> x"
    unfolding x using bp(1) bq(2) qpos p
    by (intro frac_le) (auto simp: less_imp_le)
  finally have lo: "2 powi (e - 1) \<le> x" .
  show ?thesis
  proof (cases "2 powi e \<le> x")
    case True
    then have "flog2 x = e" by (simp add: flog2_def pq e_def)
    with True hi show ?thesis by simp
  next
    case False
    then have "flog2 x = e - 1" by (simp add: flog2_def pq e_def)
    with False lo show ?thesis by simp
  qed
qed

lemma flog2_mono:
  assumes "0 < x" "x \<le> y"
  shows "flog2 x \<le> flog2 y"
proof -
  from assms have y: "0 < y" by simp
  from flog2_bracket [OF assms(1)] flog2_bracket [OF y] assms(2)
  have "(2::rat) powi flog2 x < 2 powi (flog2 y + 1)" by linarith
  then have "flog2 x < flog2 y + 1" by (rule pow2_less_exp)
  then show ?thesis by simp
qed

lemma flog2_ge:
  assumes "2 powi n \<le> x"
  shows "n \<le> flog2 x"
proof -
  have "(0::rat) < 2 powi n" by simp
  with assms have x: "0 < x" by linarith
  from flog2_bracket [OF x] assms have "(2::rat) powi n < 2 powi (flog2 x + 1)" by linarith
  then have "n < flog2 x + 1" by (rule pow2_less_exp)
  then show ?thesis by simp
qed

lemma flog2_le:
  assumes "0 < x" "x \<le> 2 powi n"
  shows "flog2 x \<le> n"
proof -
  from flog2_bracket [OF assms(1)] assms(2) have "(2::rat) powi flog2 x < 2 powi (n + 1)"
    using pow2_le [of n "n + 1"] power_int_strict_increasing [of n "n + 1" "2::rat"] by simp
  then have "flog2 x < n + 1" by (rule pow2_less_exp)
  then show ?thesis by simp
qed

lemma fl_pos_eq:
  assumes "0 < x"
  shows "fl x = of_int (round_half_even (x / 2 powi (fexp x - 52))) * 2 powi (fexp x - 52)"
  using assms by (simp add: fl_def Let_def)

lemma fl_upper:
  assumes "0 < x"
  shows "fl x \<le> 2 powi (fexp x + 1)"
proof -
  let ?u = "(2::rat) powi (fexp x - 52)"
  have u: "0 < ?u" by simp
  have "x < 2 powi (flog2 x + 1)" using flog2_bracket [OF assms] by simp
  also have "\<dots> \<le> 2 powi (fexp x + 1)" by (rule pow2_le) (simp add: fexp_def)
  finally have "x < 2 powi (fexp x + 1)" .
  also have "2 powi (fexp x + 1) = 2 ^ 53 * ?u"
    using power_int_add [of "2::rat" 53 "fexp x - 52"] by (simp add: add.commute)
  finally have "x / ?u \<le> 2 ^ 53" using u by (simp add: pos_divide_le_eq less_imp_le)
  then have "round_half_even (x / ?u) \<le> round_half_even (2 ^ 53)" by (rule round_half_even_mono)
  also have "round_half_even (2 ^ 53) = 2 ^ 53"
    using round_half_even_of_int [of "2 ^ 53"] by simp
  finally have "(of_int (round_half_even (x / ?u)) :: rat) \<le> of_int (2 ^ 53)"
    by (simp only: of_int_le_iff)
  then have "of_int (round_half_even (x / ?u)) * ?u \<le> 2 ^ 53 * ?u"
    using u by (simp add: mult_right_mono)
  also have "2 ^ 53 * ?u = 2 powi (fexp x + 1)"
    using power_int_add [of "2::rat" 53 "fexp x - 52"] by (simp add: add.commute)
  finally show ?thesis using fl_pos_eq [OF assms] by simp
qed

lemma fl_lower:
  assumes "0 < x" "- 1022 \<le> flog2 x"
  shows "2 powi fexp x \<le> fl x"
proof -
  let ?u = "(2::rat) powi (fexp x - 52)"
  have u: "0 < ?u" by simp
  from assms(2) have fe: "fexp x = flog2 x" by (simp add: fexp_def)
  have p: "2 powi fexp x = 2 ^ 52 * ?u"
    using power_int_add [of "2::rat" 52 "fexp x - 52"] by (simp add: add.commute)
  have "2 powi fexp x \<le> x" using flog2_bracket [OF assms(1)] fe by simp
  then have "2 ^ 52 \<le> x / ?u" using u p by (simp add: pos_le_divide_eq)
  then have "round_half_even (2 ^ 52) \<le> round_half_even (x / ?u)" by (rule round_half_even_mono)
  moreover have "round_half_even (2 ^ 52) = 2 ^ 52"
    using round_half_even_of_int [of "2 ^ 52"] by simp
  ultimately have "(of_int (2 ^ 52) :: rat) \<le> of_int (round_half_even (x / ?u))"
    by (simp only: of_int_le_iff)
  then have "2 ^ 52 * ?u \<le> of_int (round_half_even (x / ?u)) * ?u"
    using u by (simp add: mult_right_mono)
  with p show ?thesis using fl_pos_eq [OF assms(1)] by simp
qed

lemma fl_nonneg:
  assumes "0 \<le> x" shows "0 \<le> fl x"
proof (cases "x = 0")
  case True
  then show ?thesis by (simp add: fl_def)
next
  case False
  with assms have x: "0 < x" by simp
  let ?u = "(2::rat) powi (fexp x - 52)"
  have "0 \<le> x / ?u" using x by simp
  then have "round_half_even 0 \<le> round_half_even (x / ?u)" by (rule round_half_even_mono)
  then have "0 \<le> round_half_even (x / ?u)" using round_half_even_of_int [of 0] by simp
  then show ?thesis using fl_pos_eq [OF x] by simp
qed

lemma fl_mono:
  assumes "0 \<le> x" "x \<le> y"
  shows "fl x \<le> fl y"
proof (cases "x = 0")
  case True
  with assms fl_nonneg [of y] show ?thesis by (simp add: fl_def)
next
  case False
  with assms have x: "0 < x" and y: "0 < y" by simp_all
  have le: "fexp x \<le> fexp y" using flog2_mono [OF x assms(2)] by (simp add: fexp_def)
  show ?thesis
  proof (cases "fexp x = fexp y")
    case True
    let ?u = "(2::rat) powi (fexp y - 52)"
    have "x / ?u \<le> y / ?u" using assms(2) by (simp add: divide_right_mono)
    then have "round_half_even (x / ?u) \<le> round_half_even (y / ?u)" by (rule round_half_even_mono)
    then have "(of_int (round_half_even (x / ?u)) :: rat) * ?u \<le> of_int (round_half_even (y / ?u)) * ?u"
      by (simp add: mult_right_mono)
    with True show ?thesis using fl_pos_eq [OF x] fl_pos_eq [OF y] by simp
  next
    case False
    with le have lt: "fexp x < fexp y" by simp
    then have "- 1022 \<le> flog2 y" by (auto simp: fexp_def)
    from fl_lower [OF y this] have "2 powi fexp y \<le> fl y" .
    moreover have "fl x \<le> 2 powi (fexp x + 1)" by (rule fl_upper [OF x])
    moreover have "(2::rat) powi (fexp x + 1) \<le> 2 powi fexp y" using lt by (intro pow2_le) simp
    ultimately show ?thesis by linarith
  qed
qed

lemma fl_0: "fl 0 = 0" by (simp add: fl_def)

lemma fl_1: "fl 1 = 1" by code_simp

lemma fl_one_plus: "0 \<le> a \<Longrightarrow> 1 \<le> fl (1 + a)"
  using fl_mono [of 1 "1 + a"] by (simp add: fl_1)

lemma py_round4_mono:
  assumes "0 \<le> x" "x \<le> y"
  shows "py_round4 x \<le> py_round4 y"
proof -
  from assms have "round_half_even (0 * 10000) \<le> round_half_even (x * 10000)"
    by (intro round_half_even_mono) simp
  then have n: "0 \<le> round_half_even (x * 10000)"
    using round_half_even_of_int [of 0] by simp
  from assms have "round_half_even (x * 10000) \<le> round_half_even (y * 10000)"
    by (intro round_half_even_mono) simp
  then have "(of_int (round_half_even (x * 10000)) :: rat) / 10000
      \<le> of_int (round_half_even (y * 10000)) / 10000"
    by (simp add: divide_right_mono)
  moreover from n have "(0::rat) \<le> of_int (round_half_even (x * 10000)) / 10000" by simp
  ultimately show ?thesis unfolding py_round4_def by (intro fl_mono)
qed

lemma py_round4_0: "py_round4 0 = 0"
  unfolding py_round4_def using round_half_even_of_int [of 0] by (simp add: fl_0)

lemma py_round4_1: "py_round4 1 = 1"
  unfolding py_round4_def using round_half_even_of_int [of 10000] by (simp add: fl_1)

lemma py_round4_range: "0 \<le> x \<Longrightarrow> x \<le> 1 \<Longrightarrow> 0 \<le> py_round4 x \<and> py_round4 x \<le> 1"
  using py_round4_mono [of 0 x] py_round4_mono [of x 1] by (simp add: py_round4_0 py_round4_1)

lemma similarity_score_antimono:
  assumes "0 \<le> a" "a \<le> b"
  shows "similarity_score b \<le> similarity_score a"
proof -
  from assms have fa: "1 \<le> fl (1 + a)" and fb: "1 \<le> fl (1 + b)"
    by (simp_all add: fl_one_plus)
  from assms have "fl (1 + a) \<le> fl (1 + b)" by (intro fl_mono) simp_all
  with fa have "1 / fl (1 + b) \<le> 1 / fl (1 + a)" by (intro divide_left_mono) simp_all
  moreover from fb have "0 \<le> 1 / fl (1 + b)" by simp
  ultimately show ?thesis unfolding similarity_score_def by (intro fl_mono)
qed

lemma similarity_score_0: "similarity_score 0 = 1"
  by (simp add: similarity_score_def fl_1)

lemma similarity_score_range: "0 \<le> a \<Longrightarrow> 0 \<le> similarity_score a \<and> similarity_score a \<le> 1"
proof -
  assume a: "0 \<le> a"
  then have "1 \<le> fl (1 + a)" by (rule fl_one_plus)
  then have "0 \<le> 1 / fl (1 + a)" by simp
  then have "0 \<le> similarity_score a" unfolding similarity_score_def by (rule fl_nonneg)
  moreover from similarity_score_antimono [of 0 a] a have "similarity_score a \<le> 1"
    by (simp add: similarity_score_0)
  ultimately show ?thesis by simp
qed

lemma py_index_in_range: "0 \<le> i \<Longrightarrow> i < int (length xs) \<Longrightarrow> py_index xs i = Inr (xs ! nat i)"
  unfolding py_index_def by simp

lemma format_results_valid:
  "\<forall>p\<in>set ps. 0 \<le> fst p \<and> 0 \<le> snd p \<and> snd p < int (length docs) \<Longrightarrow>
   \<exists>rs. format_results docs i ps = Inr rs \<and> map distance rs = map fst ps
      \<and> map score rs = map (\<lambda>p. py_round4 (similarity_score (fst p))) ps"
proof (induction docs i ps rule: format_results.induct)
  case (1 docs i)
  then show ?case by simp
next
  case (2 docs i dst idx rest)
  from "2.prems" have v: "0 \<le> dst" "0 \<le> idx" "idx < int (length docs)" by auto
  then have nz: "fl (1 + dst) \<noteq> 0" using fl_one_plus [of dst] by simp
  from v have doc: "py_index docs idx = Inr (docs ! nat idx)" by (simp add: py_index_in_range)
  from "2.IH"(1) [OF v(3) nz doc] "2.prems" obtain rs where
    rs: "format_results docs (i + 1) rest = Inr rs" "map distance rs = map fst rest"
     "map score rs = map (\<lambda>p. py_round4 (similarity_score (fst p))) rest"
    by auto
  with v nz doc show ?case by simp
qed

subsection \<open>The search of the store\<close>

lemma index_search_Inr:
  assumes "index_search ix x k = Inr (distances, indices)"
  shows "distances = map (\<lambda>q. map fst (knn ix q (nat k))) x
    \<and> indices = map (\<lambda>q. map snd (knn ix q (nat k))) x"
  using assms unfolding index_search_def
  by (cases x) (auto split: if_splits)

lemma np_array_Inl: "np_array rows = Inl e \<Longrightarrow> e = ValueError ''setting an array element with a sequence''"
  unfolding np_array_def by (auto split: if_splits)

lemma np_array_Inr: "np_array rows = Inr arr \<Longrightarrow> arr = rows \<and> rectangular rows"
  unfolding np_array_def by (auto split: if_splits)

lemma search_cases:
  obtains (empty) "search enc s q k = Inr []"
  | (fail) e where "search enc s q k = Inl e"
  | (found) ix qv n where "index s = Some ix"
      "search enc s q k = format_results (documents s) 0 (knn ix qv n)"
proof (cases "index s")
  case None
  then have "search enc s q k = Inr []" by (simp add: search_def)
  then show ?thesis by (rule empty)
next
  case (Some ix)
  show ?thesis
  proof (cases "documents s = []")
    case True
    with Some have "search enc s q k = Inr []" by (simp add: search_def)
    then show ?thesis by (rule empty)
  next
    case ne: False
    show ?thesis
    proof (cases "enc [q]")
      case None
      with Some ne have "search enc s q k = Inl EmbeddingProviderError" by (simp add: search_def)
      then show ?thesis by (rule fail)
    next
      case qe: (Some query_embedding)
      show ?thesis
      proof (cases "np_array query_embedding")
        case (Inl e)
        with Some ne qe have "search enc s q k = Inl e" by (simp add: search_def)
        then show ?thesis by (rule fail)
      next
        case (Inr qarr)
        let ?k = "min k (int (length (documents s)))"
        show ?thesis
        proof (cases "index_search ix qarr ?k")
          case e: (Inl e)
          with Some ne qe Inr have "search enc s q k = Inl e" by (simp add: search_def Let_def)
          then show ?thesis by (rule fail)
        next
          case r: (Inr p)
          obtain distances indices where p: "p = (distances, indices)" by (cases p)
          from r p have dd: "distances = map (\<lambda>q. map fst (knn ix q (nat ?k))) qarr"
            and ii: "indices = map (\<lambda>q. map snd (knn ix q (nat ?k))) qarr"
            by (auto dest: index_search_Inr)
          show ?thesis
          proof (cases qarr)
            case Nil
            with Some ne qe Inr r p dd ii have "search enc s q k = Inl IndexError"
              by (simp add: search_def Let_def)
            then show ?thesis by (rule fail)
          next
            case (Cons qv qrest)
            with Some ne qe Inr r p dd ii
            have "search enc s q k = format_results (documents s) 0 (knn ix qv (nat ?k))"
              by (simp add: search_def Let_def zip_map_fst_snd)
            with Some show ?thesis by (rule found)
          qed
        qed
      qed
    qed
  qed
qed

lemma rectangular_same_length: "\<forall>v\<in>set rows. length v = n \<Longrightarrow> rectangular rows"
  unfolding rectangular_def by (cases rows) (auto simp: list_all_iff)

lemma first_add_ok:
  assumes "docs \<noteq> []" "enc docs = Some vs" "vs \<noteq> []" "\<forall>v\<in>set vs. length v = n"
  shows "add_documents enc init_store docs =
    (None, \<lparr>documents = docs, embeddings = vs,
            index = Some \<lparr>index_d = n, index_vectors = vs\<rparr>\<rparr>)"
proof -
  from rectangular_same_length [OF assms(4)] have rect: "np_array vs = Inr vs"
    by (simp add: np_array_def)
  from assms(3,4) obtain v rest where vs: "vs = v # rest" "length v = n" by (cases vs) auto
  then have sh: "shape1 vs = Inr n" by (simp add: shape1_def)
  from vs have ad: "index_add (new_index n) vs = Inr \<lparr>index_d = n, index_vectors = vs\<rparr>"
    by (simp add: index_add_def new_index_def)
  from assms(1,2) rect sh ad show ?thesis
    by (simp add: add_documents_def init_store_def Let_def)
qed

lemma search_found:
  assumes "index s = Some ix" "documents s \<noteq> []" "enc [q] = Some (qv # qrest)"
    "\<forall>v\<in>set (qv # qrest). length v = index_d ix" "0 < top_k"
  shows "search enc s q top_k =
     format_results (documents s) 0 (knn ix qv (nat (min top_k (int (length (documents s))))))"
proof -
  from rectangular_same_length [OF assms(4)]
  have rect: "np_array (qv # qrest) = Inr (qv # qrest)"
    by (simp add: np_array_def)
  from assms(2) have "0 < int (length (documents s))" by simp
  with assms(5) have k: "0 < min top_k (int (length (documents s)))" by simp
  from assms(4) have "length qv = index_d ix" by simp
  with k have "index_search ix (qv # qrest) (min top_k (int (length (documents s)))) =
     Inr (map (\<lambda>q. map fst (knn ix q (nat (min top_k (int (length (documents s))))))) (qv # qrest),
          map (\<lambda>q. map snd (knn ix q (nat (min top_k (int (length (documents s))))))) (qv # qrest))"
    by (simp add: index_search_def)
  with assms(1,2,3) rect show ?thesis
    by (simp add: search_def Let_def zip_map_fst_snd)
qed

lemma scores_descending:
  assumes "sorted ds" "\<forall>x\<in>set ds. (0::rat) \<le> x"
  shows "sorted_wrt (\<ge>) (map (\<lambda>x. py_round4 (similarity_score x)) ds)"
proof -
  have "sorted_wrt (\<lambda>x y. py_round4 (similarity_score x) \<ge> py_round4 (similarity_score y)) ds"
  proof (rule sorted_wrt_mono_rel [of ds "(\<le>)"])
    fix x y assume "x \<in> set ds" "y \<in> set ds" "x \<le> y"
    with assms(2) show "py_round4 (similarity_score y) \<le> py_round4 (similarity_score x)"
      by (intro py_round4_mono similarity_score_antimono) (auto simp: similarity_score_range)
  next
    from assms(1) show "sorted_wrt (\<le>) ds" by simp
  qed
  then show ?thesis by (simp add: sorted_wrt_map)
qed

subsection \<open>Adding documents\<close>

lemma shape1_index_add_new:
  "shape1 arr = Inr n \<Longrightarrow> index_add (new_index n) arr = Inr \<lparr>index_d = n, index_vectors = arr\<rparr>"
  unfolding shape1_def index_add_def new_index_def by (cases arr) auto

lemma index_add_Inl_index:
  "index_add ix arr = Inl e \<Longrightarrow> shape1 arr = Inr n \<Longrightarrow> index_d ix \<noteq> n"
  unfolding shape1_def index_add_def by (cases arr) (auto split: if_splits)

lemma not_rectangular_append:
  assumes "old \<noteq> []" "\<forall>v\<in>set old. length v = n" "\<exists>v\<in>set new. length v \<noteq> n"
  shows "\<not> rectangular (old @ new)"
proof -
  from assms(1,2) obtain v0 rest where old: "old = v0 # rest" "length v0 = n" by (cases old) auto
  from assms(3) obtain v where "v \<in> set new" "length v \<noteq> n" by blast
  with old show ?thesis by (auto simp: rectangular_def list_all_iff)
qed

subsection \<open>Which errors can be raised\<close>

lemma py_index_Inl: "py_index xs i = Inl e \<Longrightarrow> e = IndexError"
  unfolding py_index_def by (auto split: if_splits)

lemma format_results_no_ValueError:
  "format_results docs i ps \<noteq> Inl (ValueError m)"
proof (induction docs i ps rule: format_results.induct)
  case (1 docs i)
  then show ?case by simp
next
  case (2 docs i dst idx rest)
  then show ?case
    by (auto split: if_splits sum.splits dest: py_index_Inl)
qed

lemma index_search_ValueError:
  "index_search ix x k = Inl (ValueError m) \<Longrightarrow> library_message m"
  unfolding index_search_def library_message_def by (cases x) (auto split: if_splits)

lemma index_add_ValueError:
  "index_add ix arr = Inl (ValueError m) \<Longrightarrow> library_message m"
  unfolding index_add_def library_message_def by (cases arr) (auto split: if_splits)

lemma np_array_ValueError:
  "np_array rows = Inl (ValueError m) \<Longrightarrow> library_message m"
  unfolding np_array_def library_message_def by (auto split: if_splits)

lemma shape1_ValueError: "shape1 arr \<noteq> Inl (ValueError m)"
  unfolding shape1_def by (cases arr) auto

lemma search_ValueError:
  assumes "search enc s q k = Inl (ValueError m)"
  shows "library_message m"
proof (cases enc s q k rule: search_cases)
  case empty
  with assms show ?thesis by simp
next
  case (found ix qv n)
  with assms show ?thesis by (simp add: format_results_no_ValueError)
next
  case (fail e)
  with assms have e: "e = ValueError m" by simp
  from assms show ?thesis
    unfolding search_def Let_def
    by (auto split: option.splits if_splits sum.splits list.splits prod.splits
        dest: np_array_ValueError index_search_ValueError simp: format_results_no_ValueError)
qed

lemma add_documents_ValueError:
  assumes "add_documents enc s docs = (Some (ValueError m), s')"
  shows "library_message m"
  using assms unfolding add_documents_def Let_def
  by (auto split: option.splits if_splits sum.splits
        dest: np_array_ValueError index_add_ValueError simp: shape1_ValueError)

lemma semantic_search_ValueError:
  assumes "semantic_search enc q D k = Inl (ValueError m)"
  shows "library_message m"
  using assms unfolding semantic_search_def create_rag_store_def
  by (auto split: sum.splits if_splits prod.splits option.splits
      dest: add_documents_ValueError search_ValueError)

subsection \<open>The loop over the queries\<close>

lemma query_loop_length: "length (query_loop enc st top_k idx qs) = length qs"
  by (induction qs arbitrary: idx) simp_all

lemma query_loop_nth:
  "j < length qs \<Longrightarrow>
   query_loop enc st top_k idx qs ! j =
     (''query_'' @ str_nat (idx + j + 1), try_search enc st top_k (qs ! j))"
proof (induction qs arbitrary: idx j)
  case Nil
  then show ?case by simp
next
  case (Cons q qs)
  show ?case
  proof (cases j)
    case 0
    then show ?thesis by simp
  next
    case (Suc j')
    with Cons.prems have "j' < length qs" by simp
    from Cons.IH [OF this, of "idx + 1"] Suc show ?thesis by simp
  qed
qed

subsection \<open>The fields of a result, and the corpus of a built store\<close>

lemma format_results_fields:
  "format_results docs i ps = Inr rs \<Longrightarrow> r \<in> set rs \<Longrightarrow>
   score r = py_round4 (similarity_score (distance r)) \<and> distance r \<in> fst ` set ps"
proof (induction docs i ps arbitrary: rs rule: format_results.induct)
  case (1 docs i)
  then show ?case by simp
next
  case (2 docs i dst idx rest)
  show ?case
  proof (cases "idx < int (length docs)")
    case False
    with 2 show ?thesis by auto
  next
    case True
    with "2.prems"(1) obtain doc rs' where
      nz: "fl (1 + dst) \<noteq> 0" and
      doc: "py_index docs idx = Inr doc" and
      rest: "format_results docs (i + 1) rest = Inr rs'" and
      rs: "rs = \<lparr>rank = i + 1, document = doc, score = py_round4 (similarity_score dst),
                  distance = dst\<rparr> # rs'"
      by (auto split: if_splits sum.splits)
    from "2.prems"(2) rs consider
      "r = \<lparr>rank = i + 1, document = doc, score = py_round4 (similarity_score dst),
                  distance = dst\<rparr>" | "r \<in> set rs'" by auto
    then show ?thesis
    proof cases
      case 1
      then show ?thesis by simp
    next
      case 2
      with "2.IH"(1) [OF True nz doc rest] show ?thesis by auto
    qed
  qed
qed

lemma search_result_fields:
  assumes "search enc s q k = Inr rs" and "r \<in> set rs"
  shows "score r = py_round4 (similarity_score (distance r)) \<and> 0 \<le> distance r"
proof (cases enc s q k rule: search_cases)
  case empty
  with assms show ?thesis by simp
next
  case (fail e)
  with assms show ?thesis by simp
next
  case (found ix qv n)
  with assms have fr: "format_results (documents s) 0 (knn ix qv n) = Inr rs" by simp
  from format_results_fields [OF fr assms(2)]
  have sc: "score r = py_round4 (similarity_score (distance r))"
    and "distance r \<in> fst ` set (knn ix qv n)" by simp_all
  then obtain idx where "(distance r, idx) \<in> set (knn ix qv n)" by auto
  then have "0 \<le> distance r" by (auto dest: knn_elem)
  with sc show ?thesis by simp
qed

lemma add_documents_success_documents:
  "add_documents enc s docs = (None, s') \<Longrightarrow> documents s' = documents s @ docs"
  unfolding add_documents_def Let_def
  by (auto split: if_splits option.splits sum.splits)

lemma create_rag_store_documents:
  "create_rag_store enc docs = Inr st \<Longrightarrow> documents st = docs"
  unfolding create_rag_store_def
  by (auto split: if_splits prod.splits option.splits
      dest: add_documents_success_documents simp: init_store_def)

subsection \<open>The score at small and at large distances\<close>

lemma similarity_score_pos:
  assumes "0 \<le> a" "a \<le> 2 ^ 128"
  shows "0 < similarity_score a"
proof -
  let ?w = "1 + a" and ?y = "fl (1 + a)"
  from assms have w: "0 < ?w" "2 powi 0 \<le> ?w" by simp_all
  have "?w \<le> 2 ^ 128 + 2 ^ 128" using assms by simp
  then have "?w \<le> 2 powi 129" by simp
  with w have e: "0 \<le> flog2 ?w" "flog2 ?w \<le> 129" by (simp_all add: flog2_ge flog2_le)
  then have "fexp ?w + 1 \<le> 130" by (simp add: fexp_def)
  then have "(2::rat) powi (fexp ?w + 1) \<le> 2 powi 130" by (rule pow2_le)
  with fl_upper [OF w(1)] have y: "?y \<le> 2 powi 130" by linarith
  from assms have y1: "1 \<le> ?y" by (simp add: fl_one_plus)
  then have z: "0 < 1 / ?y" by simp
  from y y1 have "1 / 2 powi 130 \<le> 1 / ?y" by (intro divide_left_mono) simp_all
  then have "2 powi (- 130) \<le> 1 / ?y" by (simp add: power_int_minus_divide)
  then have "- 130 \<le> flog2 (1 / ?y)" by (rule flog2_ge)
  then have "- 1022 \<le> flog2 (1 / ?y)" by simp
  from fl_lower [OF z this] have "2 powi fexp (1 / ?y) \<le> fl (1 / ?y)" .
  moreover have "(0::rat) < 2 powi fexp (1 / ?y)" by simp
  ultimately show ?thesis unfolding similarity_score_def by linarith
qed

lemma score_at_20000: "similarity_score 20000 * 10000 < 1 / 2"
  by code_simp

lemma score_at_19999: "py_round4 (similarity_score 19999) = fl (1 / 10000) \<and> 0 < fl (1 / 10000)"
  by code_simp

lemma score_zero:
  assumes "20000 \<le> a"
  shows "py_round4 (similarity_score a) = 0"
proof -
  from assms have "similarity_score a \<le> similarity_score 20000"
    by (intro similarity_score_antimono) simp_all
  with score_at_20000 have "similarity_score a * 10000 < 1 / 2" by simp
  moreover from assms have "0 \<le> similarity_score a * 10000"
    using similarity_score_range [of a] by simp
  ultimately have "round_half_even (similarity_score a * 10000) = 0"
    by (intro round_half_even_zero)
  then show ?thesis by (simp add: py_round4_def fl_0)
qed

lemma score_positive:
  assumes "0 \<le> a" "a \<le> 19999"
  shows "fl (1 / 10000) \<le> py_round4 (similarity_score a)"
proof -
  from assms have "similarity_score 19999 \<le> similarity_score a"
    by (intro similarity_score_antimono)
  moreover have "0 \<le> similarity_score 19999" using similarity_score_range [of 19999] by simp
  ultimately have "py_round4 (similarity_score 19999) \<le> py_round4 (similarity_score a)"
    by (intro py_round4_mono)
  with score_at_19999 show ?thesis by simp
qed

section \<open>The claims\<close>

text \<open>
  C1 (as the code has it). \<open>add_documents\<close> is not atomic, there is no rollback:
  whenever the call fails, the whole batch has already been appended to the corpus
  (\<open>documents\<close> is the old list followed by the batch). The index is as before the
  call. The stored embeddings are as before when the embedding computation failed,
  and extended by the new embeddings when a later step failed.
\<close>

theorem add_documents_failure_state:
  assumes "add_documents enc s docs = (Some e, s')"
  shows "documents s' = documents s @ docs \<and> index s' = index s
     \<and> (case enc docs of None \<Rightarrow> embeddings s' = embeddings s
         | Some new \<Rightarrow> embeddings s' = embeddings s @ new)"
proof -
  from assms have ne: "docs \<noteq> []" by (auto simp: add_documents_def)
  show ?thesis
  proof (cases "enc docs")
    case None
    with assms ne show ?thesis by (auto simp: add_documents_def)
  next
    case (Some new)
    show ?thesis
    proof (cases "np_array (embeddings s @ new)")
      case (Inl e')
      with assms ne Some show ?thesis by (auto simp: add_documents_def Let_def)
    next
      case arr: (Inr arr)
      show ?thesis
      proof (cases "shape1 arr")
        case (Inl e')
        with assms ne Some arr show ?thesis by (auto simp: add_documents_def Let_def)
      next
        case sh: (Inr n)
        show ?thesis
        proof (cases "index s")
          case None
          with assms ne Some arr sh shape1_index_add_new [OF sh] show ?thesis
            by (simp add: add_documents_def Let_def)
        next
          case ix: (Some ix)
          with assms ne Some arr sh show ?thesis
            by (auto simp: add_documents_def Let_def split: sum.splits)
        qed
      qed
    qed
  qed
qed

theorem add_documents_failure_state_witness:
  "add_documents failing_encoder init_store [''a''] =
     (Some EmbeddingProviderError, \<lparr>documents = [''a''], embeddings = [], index = None\<rparr>)
   \<and> documents \<lparr>documents = [''a''], embeddings = [], index = None\<rparr> = documents init_store @ [''a'']
   \<and> index \<lparr>documents = [''a''], embeddings = [], index = None\<rparr> = index init_store
   \<and> embeddings \<lparr>documents = [''a''], embeddings = [], index = None\<rparr> = embeddings init_store"
proof -
  have e: "add_documents failing_encoder init_store [''a''] =
     (Some EmbeddingProviderError, \<lparr>documents = [''a''], embeddings = [], index = None\<rparr>)"
    by (simp add: add_documents_def failing_encoder_def init_store_def)
  from add_documents_failure_state [OF e] e show ?thesis
    by (simp add: failing_encoder_def)
qed

text \<open>
  The claim as stated fails: with a provider that raises, a call on the empty store
  leaves the document in the corpus.
\<close>

theorem add_documents_not_atomic:
  "add_documents failing_encoder init_store [''a''] =
     (Some EmbeddingProviderError, \<lparr>documents = [''a''], embeddings = [], index = None\<rparr>)
   \<and> \<lparr>documents = [''a''], embeddings = [], index = None\<rparr> \<noteq> init_store"
  by (simp add: add_documents_def failing_encoder_def init_store_def)

text \<open>
  C2. Invariant I1 (the corpus, the embeddings and the index have one length) holds
  for the empty store, after \<open>clear\<close> and after the first successful
  \<open>add_documents\<close>. The second successful call breaks it: line 62 adds the array of
  all embeddings, old and new, to the index that already holds the old ones. After
  adding \<open>''a''\<close> and then \<open>''bb''\<close> the store has 2 documents, 2 embeddings and 3
  vectors in the index.
\<close>

theorem second_add_breaks_I1:
  "add_documents length_encoder init_store [''a''] = (None, one_add)
   \<and> I1 one_add
   \<and> add_documents length_encoder one_add [''bb''] = (None, two_adds)
   \<and> length (documents two_adds) = 2
   \<and> length (embeddings two_adds) = 2
   \<and> index_size two_adds = 3
   \<and> \<not> I1 two_adds"
  by code_simp

text \<open>
  In general a successful call on a store that has an index grows the index by the
  number of all embeddings, not by the size of the batch.
\<close>

lemma add_documents_index_growth:
  assumes "index s = Some ix" and "add_documents enc s docs = (None, s')" and "docs \<noteq> []"
  shows "index_size s' = index_size s + length (embeddings s')"
  using assms
  by (auto simp: add_documents_def Let_def index_size_def ntotal_def index_add_def np_array_def
      split: option.splits sum.splits if_splits list.splits)

lemma I1_init_clear: "I1 init_store \<and> I1 (clear s)"
  by (simp add: I1_def init_store_def clear_def index_size_def)

text \<open>
  C3. For every non-empty list of documents \<open>D\<close>, every valid query \<open>q\<close> (not empty
  and not only whitespace) and every \<open>top_k = k \<ge> 1\<close>, with a provider that embeds
  the documents and the query in one dimension, \<open>search_documents\<close> returns exactly
  \<open>min k |D|\<close> results, in order of non-decreasing distance and non-increasing score;
  \<open>k\<close> above \<open>|D|\<close> is clamped and is no error. A search of a store without an index
  returns the empty list.
\<close>

theorem search_documents_count_and_order:
  assumes "py_strip q \<noteq> []" and "D \<noteq> []" and "1 \<le> k"
    and "enc D = Some vs" and "length vs = length D" and "\<forall>v\<in>set vs. length v = n"
    and "enc [q] = Some (qv # qrest)" and "\<forall>v\<in>set (qv # qrest). length v = n"
  shows "(\<exists>out. search_documents enc q D k = Inr out
            \<and> length (results out) = min (nat k) (length D)
            \<and> returned_results out = min (nat k) (length D)
            \<and> total_documents out = length D
            \<and> sorted (map distance (results out))
            \<and> sorted_wrt (\<ge>) (map score (results out)))
         \<and> search enc init_store q k = Inr []"
proof
  let ?ix = "\<lparr>index_d = n, index_vectors = vs\<rparr>"
  let ?st = "\<lparr>documents = D, embeddings = vs, index = Some ?ix\<rparr>"
  let ?m = "nat (min k (int (length D)))"
  from assms(2,5) have vne: "vs \<noteq> []" by auto
  from assms(2,4) vne assms(6) have "add_documents enc init_store D = (None, ?st)"
    by (rule first_add_ok)
  with assms(2) have st: "create_rag_store enc D = Inr ?st"
    by (simp add: create_rag_store_def)
  have "search enc ?st q k = format_results (documents ?st) 0 (knn ?ix qv (nat (min k (int (length (documents ?st))))))"
    by (rule search_found [where qrest = qrest]) (use assms in auto)
  then have se: "search enc ?st q k = format_results D 0 (knn ?ix qv ?m)" by simp
  have valid: "\<forall>p\<in>set (knn ?ix qv ?m). 0 \<le> fst p \<and> 0 \<le> snd p \<and> snd p < int (length D)"
  proof
    fix p assume "p \<in> set (knn ?ix qv ?m)"
    then show "0 \<le> fst p \<and> 0 \<le> snd p \<and> snd p < int (length D)"
      using knn_elem [of "fst p" "snd p" ?ix qv ?m] assms(5) by simp
  qed
  from format_results_valid [OF valid, of 0] obtain rs where
    rs: "format_results D 0 (knn ?ix qv ?m) = Inr rs"
        "map distance rs = map fst (knn ?ix qv ?m)"
        "map score rs = map (\<lambda>p. py_round4 (similarity_score (fst p))) (knn ?ix qv ?m)"
    by blast
  from rs(2) have "length rs = length (knn ?ix qv ?m)"
    using length_map [of distance rs] by simp
  with assms(3,5) have len: "length rs = min (nat k) (length D)"
    by (simp add: knn_length)
  have sd: "sorted (map distance rs)" using rs(2) by (simp add: knn_sorted)
  have "map score rs = map (\<lambda>x. py_round4 (similarity_score x)) (map fst (knn ?ix qv ?m))"
    using rs(3) by (simp add: comp_def)
  moreover have "sorted_wrt (\<ge>) (map (\<lambda>x. py_round4 (similarity_score x)) (map fst (knn ?ix qv ?m)))"
    by (rule scores_descending) (use valid in \<open>auto simp: knn_sorted\<close>)
  ultimately have ss: "sorted_wrt (\<ge>) (map score rs)" by simp
  from assms(1) have qne: "q \<noteq> []" by (auto simp: py_strip_def)
  from assms(1,2) qne st se rs(1)
  have "search_documents enc q D k =
     Inr \<lparr>query = q, total_documents = length D, returned_results = length rs, results = rs\<rparr>"
    by (simp add: search_documents_def semantic_search_def)
  with len sd ss
  show "\<exists>out. search_documents enc q D k = Inr out
            \<and> length (results out) = min (nat k) (length D)
            \<and> returned_results out = min (nat k) (length D)
            \<and> total_documents out = length D
            \<and> sorted (map distance (results out))
            \<and> sorted_wrt (\<ge>) (map score (results out))"
    by simp
next
  show "search enc init_store q k = Inr []"
    by (simp add: search_def init_store_def)
qed

theorem search_documents_count_and_order_witness:
  "py_strip ''abc'' \<noteq> [] \<and> (1::int) \<le> 3
   \<and> length_encoder [''x'', ''abcd'', ''abc'', ''ab''] = Some [[1], [4], [3], [2]]
   \<and> length_encoder [''abc''] = Some [[3]]
   \<and> (\<exists>out. search_documents length_encoder ''abc'' [''x'', ''abcd'', ''abc'', ''ab''] 3 = Inr out
         \<and> length (results out) = min (nat 3) (length [''x'', ''abcd'', ''abc'', ''ab''])
         \<and> returned_results out = min (nat 3) (length [''x'', ''abcd'', ''abc'', ''ab''])
         \<and> total_documents out = length [''x'', ''abcd'', ''abc'', ''ab'']
         \<and> sorted (map distance (results out))
         \<and> sorted_wrt (\<ge>) (map score (results out)))
   \<and> search length_encoder init_store ''abc'' 3 = Inr []"
proof -
  have h1: "py_strip ''abc'' \<noteq> []" by code_simp
  have h2: "[''x'', ''abcd'', ''abc'', ''ab''] \<noteq> ([] :: string list)" by simp
  have h3: "(1::int) \<le> 3" by simp
  have h4: "length_encoder [''x'', ''abcd'', ''abc'', ''ab''] = Some [[1], [4], [3], [2]]"
    by (simp add: length_encoder_def)
  have h5: "length [[1], [4], [3], [2::rat]] = length [''x'', ''abcd'', ''abc'', ''ab'']" by simp
  have h6: "\<forall>v\<in>set [[1], [4], [3], [2::rat]]. length v = 1" by simp
  have h7: "length_encoder [''abc''] = Some ([3] # [])" by (simp add: length_encoder_def)
  have h8: "\<forall>v\<in>set ([3::rat] # []). length v = 1" by simp
  from search_documents_count_and_order [OF h1 h2 h3 h4 h5 h6 h7 h8] h1 h3 h4 h7
  show ?thesis by blast
qed

text \<open>
  C4 (as the code has it). \<open>search_documents\<close> raises its validation error, a
  \<^verbatim>\<open>ValueError\<close>, exactly when the query is empty or only whitespace, or, for a valid
  query, when the list of documents is empty; it does so before any computation (the
  outcome depends neither on the provider nor on \<open>top_k\<close>). \<open>top_k\<close> is not
  validated. \<open>SimpleRAGStore.search\<close> validates nothing: on a store without index or
  documents it returns the empty list.
\<close>

theorem search_documents_validation:
  "(search_documents enc q D k = Inl (ValueError ''Query cannot be empty'')
      \<longleftrightarrow> q = [] \<or> py_strip q = [])
   \<and> (search_documents enc q D k = Inl (ValueError ''Documents list cannot be empty'')
      \<longleftrightarrow> \<not> (q = [] \<or> py_strip q = []) \<and> D = [])
   \<and> (q = [] \<or> py_strip q = [] \<or> D = []
      \<longrightarrow> search_documents enc q D k = search_documents enc' q D k')
   \<and> (index s = None \<or> documents s = [] \<longrightarrow> search enc s q k = Inr [])"
proof -
  have a: "\<not> library_message ''Query cannot be empty''"
    and b: "\<not> library_message ''Documents list cannot be empty''"
    by (simp_all add: library_message_def)
  have ss: "semantic_search enc q D k \<noteq> Inl (ValueError ''Query cannot be empty'')"
    "semantic_search enc q D k \<noteq> Inl (ValueError ''Documents list cannot be empty'')"
    using a b semantic_search_ValueError by blast+
  have 1: "search_documents enc q D k = Inl (ValueError ''Query cannot be empty'')
      \<longleftrightarrow> q = [] \<or> py_strip q = []"
    using ss by (auto simp: search_documents_def split: sum.splits)
  have 2: "search_documents enc q D k = Inl (ValueError ''Documents list cannot be empty'')
      \<longleftrightarrow> \<not> (q = [] \<or> py_strip q = []) \<and> D = []"
    using ss by (auto simp: search_documents_def split: sum.splits)
  have 3: "q = [] \<or> py_strip q = [] \<or> D = []
      \<longrightarrow> search_documents enc q D k = search_documents enc' q D k'"
    by (auto simp: search_documents_def)
  have 4: "index s = None \<or> documents s = [] \<longrightarrow> search enc s q k = Inr []"
    by (auto simp: search_def split: option.splits)
  from 1 2 3 4 show ?thesis by blast
qed

theorem search_documents_validation_witness:
  "search_documents length_encoder '' '' [''a''] 3 = Inl (ValueError ''Query cannot be empty'')
   \<and> search_documents length_encoder ''q'' [] 3 = Inl (ValueError ''Documents list cannot be empty'')
   \<and> search_documents length_encoder ''q'' [''a''] 0 \<noteq> Inl (ValueError ''Query cannot be empty'')
   \<and> search_documents length_encoder '' '' [''a''] 3 = search_documents failing_encoder '' '' [''a''] 0
   \<and> search length_encoder init_store ''q'' 3 = Inr []"
proof -
  have blank: "py_strip '' '' = []" by code_simp
  have valid: "\<not> (''q'' = [] \<or> py_strip ''q'' = [])" by code_simp
  have none: "index init_store = None" by (simp add: init_store_def)
  from search_documents_validation [of length_encoder "'' ''" "[''a'']" 3 failing_encoder 0
      init_store]
    search_documents_validation [of length_encoder "''q''" "[]" 3 failing_encoder 0
      init_store]
    search_documents_validation [of length_encoder "''q''" "[''a'']" 0 failing_encoder 0
      init_store]
    blank valid none
  show ?thesis by blast
qed

text \<open>
  The claim as stated fails: a non-positive \<open>top_k\<close> raises no validation error
  (the call builds the store, embeds the query and ends in the assertion \<open>k > 0\<close>
  of the index), and \<open>search\<close> raises nothing on an empty corpus or a blank query.
\<close>

theorem top_k_not_validated:
  "search_documents length_encoder ''q'' [''a''] 0 = Inl AssertionError
   \<and> search_documents length_encoder ''q'' [''a''] (- 1) = Inl AssertionError
   \<and> search length_encoder init_store ''q'' 3 = Inr []
   \<and> search length_encoder one_add '' '' 3 =
        Inr [\<lparr>rank = 1, document = ''a'', score = 1, distance = 0\<rparr>]"
  by code_simp

text \<open>
  C5 (as the code has it). For every store with an index and stored embeddings of
  one dimension \<open>n\<close>, a later \<open>add_documents\<close> whose batch has an embedding of
  another dimension fails, with the \<^verbatim>\<open>ValueError\<close> of the array construction (the code
  has no \<open>DimensionMismatch\<close>). The index is unchanged, but the batch has been
  appended to the corpus and its embeddings to the stored embeddings.
\<close>

theorem add_documents_dimension_mismatch:
  assumes "index s = Some ix" and "embeddings s \<noteq> []" and "\<forall>v\<in>set (embeddings s). length v = n"
    and "docs \<noteq> []" and "enc docs = Some new" and "\<exists>v\<in>set new. length v \<noteq> n"
  shows "add_documents enc s docs =
    (Some (ValueError ''setting an array element with a sequence''),
     s\<lparr>documents := documents s @ docs, embeddings := embeddings s @ new\<rparr>)"
proof -
  from not_rectangular_append [OF assms(2,3,6)]
  have "np_array (embeddings s @ new) = Inl (ValueError ''setting an array element with a sequence'')"
    by (simp add: np_array_def)
  with assms(4,5) show ?thesis by (simp add: add_documents_def Let_def)
qed

theorem add_documents_dimension_mismatch_witness:
  "index one_add = Some \<lparr>index_d = 1, index_vectors = [[1]]\<rparr>
   \<and> embeddings one_add \<noteq> []
   \<and> ragged_encoder [''bb''] = Some [[1, 1]]
   \<and> add_documents ragged_encoder one_add [''bb''] =
    (Some (ValueError ''setting an array element with a sequence''),
     one_add\<lparr>documents := documents one_add @ [''bb''],
                 embeddings := embeddings one_add @ [[1, 1]]\<rparr>)"
proof -
  have h1: "index one_add = Some \<lparr>index_d = 1, index_vectors = [[1]]\<rparr>"
    by (simp add: one_add_def)
  have h2: "embeddings one_add \<noteq> []" by (simp add: one_add_def)
  have h3: "\<forall>v\<in>set (embeddings one_add). length v = 1" by (simp add: one_add_def)
  have h4: "[''bb''] \<noteq> ([] :: string list)" by simp
  have h5: "ragged_encoder [''bb''] = Some [[1, 1]]" by (simp add: ragged_encoder_def)
  have h6: "\<exists>v\<in>set [[1, 1 :: rat]]. length v \<noteq> 1" by simp
  from add_documents_dimension_mismatch
      [of one_add _ 1 "[''bb'']" ragged_encoder "[[1, 1]]", OF h1 h2 h3 h4 h5 h6] h1 h2 h5
  show ?thesis by blast
qed

text \<open>
  The claim as stated fails: after \<open>''a''\<close> (dimension 1) the batch \<open>''bb''\<close>
  (dimension 2) is refused, and the corpus has grown from one document to two.
\<close>

theorem dimension_mismatch_mutates:
  "add_documents ragged_encoder init_store [''a''] = (None, one_add)
   \<and> add_documents ragged_encoder one_add [''bb''] =
      (Some (ValueError ''setting an array element with a sequence''),
       \<lparr>documents = [''a'', ''bb''], embeddings = [[1], [1, 1]],
        index = Some \<lparr>index_d = 1, index_vectors = [[1]]\<rparr>\<rparr>)
   \<and> length (documents \<lparr>documents = [''a'', ''bb''], embeddings = [[1], [1, 1]],
        index = Some \<lparr>index_d = 1, index_vectors = [[1]]\<rparr>\<rparr>) \<noteq> length (documents one_add)
   \<and> ValueError ''setting an array element with a sequence'' \<noteq> DimensionMismatch"
  by code_simp

text \<open>
  C6 (as the code has it). \<open>multi_query_search\<close> isolates the failures of single
  queries: for every non-empty list of queries and every non-empty corpus from which
  the store is built, the output has one entry per query, in order and under the key
  \<open>query_j\<close>; the entry of a query whose search raises holds the error and no
  results, the entry of any other query holds the results of its search, whatever
  the other queries do; and \<open>total_queries\<close> is the number of queries.
\<close>

theorem multi_query_search_isolation:
  assumes "queries \<noteq> []" and "docs \<noteq> []" and "create_rag_store enc docs = Inr st"
  shows "\<exists>out. multi_query_search enc queries docs top_k = Inr out
      \<and> total_queries out = length queries
      \<and> length (multi_results out) = length queries
      \<and> (\<forall>j<length queries.
            fst (multi_results out ! j) = ''query_'' @ str_nat (j + 1)
            \<and> entry_query (snd (multi_results out ! j)) = queries ! j
            \<and> (\<forall>rs. search enc st (queries ! j) top_k = Inr rs \<longrightarrow>
                  entry_error (snd (multi_results out ! j)) = None
                  \<and> entry_results (snd (multi_results out ! j)) = rs)
            \<and> (\<forall>e. search enc st (queries ! j) top_k = Inl e \<longrightarrow>
                  entry_error (snd (multi_results out ! j)) = Some e
                  \<and> entry_results (snd (multi_results out ! j)) = []))"
proof -
  from assms have "multi_query_search enc queries docs top_k =
     Inr \<lparr>total_queries = length queries, multi_total_documents = length docs,
          multi_results = query_loop enc st top_k 0 queries\<rparr>"
    by (simp add: multi_query_search_def)
  then show ?thesis
    by (simp add: query_loop_length query_loop_nth try_search_def split: sum.splits)
qed

theorem multi_query_search_isolation_witness:
  "create_rag_store picky_encoder [''x'', ''abcd''] = Inr picky_store
   \<and> multi_query_search picky_encoder [''abc'', '''', ''abcde''] [''x'', ''abcd''] 1 =
      Inr \<lparr>total_queries = 3, multi_total_documents = 2,
           multi_results =
             [(''query_1'', \<lparr>entry_query = ''abc'', entry_error = None,
                 entry_results = [\<lparr>rank = 1, document = ''abcd'', score = 1 / 2, distance = 1\<rparr>]\<rparr>),
              (''query_2'', \<lparr>entry_query = '''', entry_error = Some EmbeddingProviderError,
                 entry_results = []\<rparr>),
              (''query_3'', \<lparr>entry_query = ''abcde'', entry_error = None,
                 entry_results = [\<lparr>rank = 1, document = ''abcd'', score = 1 / 2, distance = 1\<rparr>]\<rparr>)]\<rparr>"
proof -
  have h1: "[''abc'', '''', ''abcde''] \<noteq> ([] :: string list)" by simp
  have h2: "[''x'', ''abcd''] \<noteq> ([] :: string list)" by simp
  have h3: "create_rag_store picky_encoder [''x'', ''abcd''] = Inr picky_store" by code_simp
  have ev: "multi_query_search picky_encoder [''abc'', '''', ''abcde''] [''x'', ''abcd''] 1 = Inr
      \<lparr>total_queries = 3, multi_total_documents = 2,
           multi_results =
             [(''query_1'', \<lparr>entry_query = ''abc'', entry_error = None,
                 entry_results = [\<lparr>rank = 1, document = ''abcd'', score = 1 / 2, distance = 1\<rparr>]\<rparr>),
              (''query_2'', \<lparr>entry_query = '''', entry_error = Some EmbeddingProviderError,
                 entry_results = []\<rparr>),
              (''query_3'', \<lparr>entry_query = ''abcde'', entry_error = None,
                 entry_results = [\<lparr>rank = 1, document = ''abcd'', score = 1 / 2, distance = 1\<rparr>]\<rparr>)]\<rparr>"
    by code_simp
  from multi_query_search_isolation [OF h1 h2 h3, of 1] ev h3 show ?thesis by simp
qed

text \<open>
  The claim as stated fails on its own example: the empty string is not a failing
  query. \<open>search\<close> does not validate the query, the provider embeds it, and its
  entry is a success like the first.
\<close>

theorem empty_query_is_no_failure:
  "multi_query_search length_encoder [''machine learning'', ''''] [''x'', ''abcd''] 3 =
     Inr \<lparr>total_queries = 2, multi_total_documents = 2,
          multi_results =
            [(''query_1'', \<lparr>entry_query = ''machine learning'', entry_error = None,
                entry_results =
                  [\<lparr>rank = 1, document = ''abcd'', score = fl (69 / 10000), distance = 144\<rparr>,
                   \<lparr>rank = 2, document = ''x'', score = fl (44 / 10000), distance = 225\<rparr>]\<rparr>),
             (''query_2'', \<lparr>entry_query = '''', entry_error = None,
                entry_results =
                  [\<lparr>rank = 1, document = ''x'', score = 1 / 2, distance = 1\<rparr>,
                   \<lparr>rank = 2, document = ''abcd'', score = fl (588 / 10000), distance = 16\<rparr>]\<rparr>)]\<rparr>"
  by code_simp

text \<open>
  C7 (as the code has it). For every result that \<open>search\<close> returns, the reported
  score is \<open>1 / (1 + distance)\<close>, computed in doubles and rounded to 4 decimal
  places, the distance of the index is returned with it unchanged and is not negative,
  and the reported score lies in \<open>[0, 1]\<close>. The transform is non-increasing in the
  distance, rounded or not (not strictly: the distance \<open>2 powi - 60\<close> has the
  score of the distance 0). Before rounding it lies in \<open>(0, 1]\<close> for every distance
  of the float32 range. Distance 0 gives the score 1. The reported score is 0 for
  every distance from 20000 on, and at least the double of \<open>0.0001\<close> for every
  distance up to 19999.
\<close>

theorem score_transform:
  "(search enc s q k = Inr rs \<longrightarrow>
      (\<forall>r\<in>set rs. score r = py_round4 (similarity_score (distance r))
          \<and> 0 \<le> distance r \<and> 0 \<le> score r \<and> score r \<le> 1))
   \<and> (format_results docs i ps = Inr rs' \<longrightarrow>
      (\<forall>r\<in>set rs'. score r = py_round4 (similarity_score (distance r))
          \<and> distance r \<in> fst ` set ps))
   \<and> (0 \<le> a \<and> a \<le> b \<longrightarrow>
        similarity_score b \<le> similarity_score a
        \<and> py_round4 (similarity_score b) \<le> py_round4 (similarity_score a))
   \<and> (0 \<le> a \<and> a \<le> 2 ^ 128 \<longrightarrow> 0 < similarity_score a \<and> similarity_score a \<le> 1)
   \<and> similarity_score 0 = 1 \<and> py_round4 (similarity_score 0) = 1
   \<and> (20000 \<le> a \<longrightarrow> py_round4 (similarity_score a) = 0)
   \<and> (0 \<le> a \<and> a \<le> 19999 \<longrightarrow>
        0 < py_round4 (similarity_score a)
        \<and> fl (1 / 10000) \<le> py_round4 (similarity_score a))
   \<and> similarity_score (1 / 2 ^ 60) = similarity_score 0"
proof -
  have 1: "search enc s q k = Inr rs \<longrightarrow>
      (\<forall>r\<in>set rs. score r = py_round4 (similarity_score (distance r))
          \<and> 0 \<le> distance r \<and> 0 \<le> score r \<and> score r \<le> 1)"
  proof (intro impI ballI)
    fix r assume a: "search enc s q k = Inr rs" "r \<in> set rs"
    from search_result_fields [OF a]
    have f: "score r = py_round4 (similarity_score (distance r))" "0 \<le> distance r"
      by simp_all
    from similarity_score_range [OF f(2)]
    have "0 \<le> similarity_score (distance r)" "similarity_score (distance r) \<le> 1"
      by simp_all
    from py_round4_range [OF this] f
    show "score r = py_round4 (similarity_score (distance r))
          \<and> 0 \<le> distance r \<and> 0 \<le> score r \<and> score r \<le> 1" by simp
  qed
  have 2: "format_results docs i ps = Inr rs' \<longrightarrow>
      (\<forall>r\<in>set rs'. score r = py_round4 (similarity_score (distance r))
          \<and> distance r \<in> fst ` set ps)"
    using format_results_fields by blast
  have 3: "0 \<le> a \<and> a \<le> b \<longrightarrow>
        similarity_score b \<le> similarity_score a
        \<and> py_round4 (similarity_score b) \<le> py_round4 (similarity_score a)"
  proof (intro impI)
    assume h: "0 \<le> a \<and> a \<le> b"
    then have m: "similarity_score b \<le> similarity_score a"
      by (intro similarity_score_antimono) simp_all
    moreover from h have "0 \<le> similarity_score b" using similarity_score_range [of b] by simp
    ultimately show "similarity_score b \<le> similarity_score a
        \<and> py_round4 (similarity_score b) \<le> py_round4 (similarity_score a)"
      by (simp add: py_round4_mono)
  qed
  have 4: "0 \<le> a \<and> a \<le> 2 ^ 128 \<longrightarrow> 0 < similarity_score a \<and> similarity_score a \<le> 1"
    using similarity_score_pos [of a] similarity_score_range [of a] by simp
  have 5: "similarity_score 0 = 1" "py_round4 (similarity_score 0) = 1"
    by (simp_all add: similarity_score_0 py_round4_1)
  have 6: "20000 \<le> a \<longrightarrow> py_round4 (similarity_score a) = 0"
    by (simp add: score_zero)
  have 7: "0 \<le> a \<and> a \<le> 19999 \<longrightarrow>
        0 < py_round4 (similarity_score a)
        \<and> fl (1 / 10000) \<le> py_round4 (similarity_score a)"
    using score_positive [of a] score_at_19999 by auto
  have 8: "similarity_score (1 / 2 ^ 60) = similarity_score 0"
    by code_simp
  from 1 2 3 4 5 6 7 8 show ?thesis by blast
qed

theorem score_transform_witness:
  "search length_encoder one_add ''abc'' 1 =
      Inr [\<lparr>rank = 1, document = ''a'', score = fl (1 / 5), distance = 4\<rparr>]
   \<and> fl (1 / 5) = py_round4 (similarity_score 4)
   \<and> format_results [''a''] 0 [(159, 0)] =
      Inr [\<lparr>rank = 1, document = ''a'', score = fl (63 / 10000), distance = 159\<rparr>]
   \<and> fl (63 / 10000) = py_round4 (similarity_score 159)
   \<and> similarity_score 4 \<le> similarity_score 1
   \<and> py_round4 (similarity_score 4) \<le> py_round4 (similarity_score 1)
   \<and> 0 < similarity_score 1 \<and> similarity_score 1 \<le> 1
   \<and> py_round4 (similarity_score 20000) = 0
   \<and> 0 < py_round4 (similarity_score 1)"
proof -
  have e: "search length_encoder one_add ''abc'' 1 =
      Inr [\<lparr>rank = 1, document = ''a'', score = fl (1 / 5), distance = 4\<rparr>]"
    by code_simp
  have f: "format_results [''a''] 0 [(159, 0)] =
      Inr [\<lparr>rank = 1, document = ''a'', score = fl (63 / 10000), distance = 159\<rparr>]"
    by code_simp
  have b: "(1::rat) \<le> 2 ^ 128" by simp
  from score_transform [of length_encoder one_add "''abc''" 1
      "[\<lparr>rank = 1, document = ''a'', score = fl (1 / 5), distance = 4\<rparr>]"
      "[''a'']" 0 "[(159, 0)]"
      "[\<lparr>rank = 1, document = ''a'', score = fl (63 / 10000), distance = 159\<rparr>]" 1 4]
    score_transform [of length_encoder one_add "''abc''" 1
      "[\<lparr>rank = 1, document = ''a'', score = fl (1 / 5), distance = 4\<rparr>]"
      "[''a'']" 0 "[(159, 0)]"
      "[\<lparr>rank = 1, document = ''a'', score = fl (63 / 10000), distance = 159\<rparr>]" 20000 20000]
    e f b
  show ?thesis by simp
qed

text \<open>
  The claim as stated fails for the reported score: rounding to 4 places gives 0 once
  \<open>1 / (1 + distance)\<close> is below \<open>0.00005\<close>. Here the query is embedded at 143
  and the document at 1, a squared distance of 20164.
\<close>

theorem rounded_score_can_be_zero:
  "search_documents length_encoder (replicate 143 CHR ''q'') [''a''] 1 =
     Inr \<lparr>query = replicate 143 CHR ''q'', total_documents = 1, returned_results = 1,
          results = [\<lparr>rank = 1, document = ''a'', score = 0, distance = 20164\<rparr>]\<rparr>"
  by code_simp

text \<open>
  C8. Whenever \<open>find_similar_documents\<close> returns, its results are those of the
  search for the full target text in the store built from all the documents (the
  corpus of the store is the whole list, the target is not taken out), and only the
  field \<open>target_document\<close> is cut: it is the first 200 characters followed by
  \<open>''...''\<close> when the target has more than 200 characters, and the target itself
  otherwise.
\<close>

theorem find_similar_documents_preview:
  assumes "find_similar_documents enc target_doc docs top_k = Inr out"
  shows "(\<exists>st. create_rag_store enc docs = Inr st \<and> documents st = docs
            \<and> search enc st target_doc top_k = Inr (similar_documents out))
     \<and> corpus_size out = length docs
     \<and> (200 < length target_doc \<longrightarrow>
          target_document out = take 200 target_doc @ ''...'' \<and> length (target_document out) = 203)
     \<and> (length target_doc \<le> 200 \<longrightarrow> target_document out = target_doc)"
proof -
  from assms obtain rs where rs: "semantic_search enc target_doc docs top_k = Inr rs"
    and out: "out = \<lparr>target_document =
                   (if length target_doc > 200 then take 200 target_doc @ ''...'' else target_doc),
                 corpus_size = length docs, similar_documents = rs\<rparr>"
    by (auto simp: find_similar_documents_def split: if_splits sum.splits)
  from rs obtain st where st: "create_rag_store enc docs = Inr st"
    "search enc st target_doc top_k = Inr rs"
    by (auto simp: semantic_search_def split: sum.splits)
  from st(1) have "documents st = docs" by (rule create_rag_store_documents)
  with st out show ?thesis by auto
qed

theorem find_similar_documents_preview_witness:
  "find_similar_documents length_encoder (replicate 201 CHR ''a'') [replicate 201 CHR ''a'', ''b''] 1 =
     Inr \<lparr>target_document = replicate 200 CHR ''a'' @ ''...'', corpus_size = 2,
          similar_documents =
            [\<lparr>rank = 1, document = replicate 201 CHR ''a'', score = 1, distance = 0\<rparr>]\<rparr>
   \<and> length (replicate 200 CHR ''a'' @ ''...'') = 203
   \<and> find_similar_documents length_encoder ''b'' [replicate 201 CHR ''a'', ''b''] 1 =
     Inr \<lparr>target_document = ''b'', corpus_size = 2,
          similar_documents = [\<lparr>rank = 1, document = ''b'', score = 1, distance = 0\<rparr>]\<rparr>"
proof -
  have e1: "find_similar_documents length_encoder (replicate 201 CHR ''a'') [replicate 201 CHR ''a'', ''b''] 1 =
     Inr \<lparr>target_document = replicate 200 CHR ''a'' @ ''...'', corpus_size = 2,
          similar_documents =
            [\<lparr>rank = 1, document = replicate 201 CHR ''a'', score = 1, distance = 0\<rparr>]\<rparr>"
    by code_simp
  have e2: "find_similar_documents length_encoder ''b'' [replicate 201 CHR ''a'', ''b''] 1 =
     Inr \<lparr>target_document = ''b'', corpus_size = 2,
          similar_documents = [\<lparr>rank = 1, document = ''b'', score = 1, distance = 0\<rparr>]\<rparr>"
    by code_simp
  from find_similar_documents_preview [OF e1] find_similar_documents_preview [OF e2] e1 e2
  show ?thesis by simp
qed

text \<open>
  C9. For every store state, \<open>add_documents\<close> with an empty list of documents raises
  no error and returns the store as it was: documents, embeddings and index keep
  their values.
\<close>

theorem add_documents_empty_noop:
  "add_documents enc s [] = (None, s)"
  by (simp add: add_documents_def)

text \<open>
  C10. The guard of the loop, \<^verbatim>\<open>idx < len(self.documents)\<close>, has no lower bound. The
  library's search fills the places for which the index has no vector with the label
  \<open>- 1\<close> and the largest float32 as distance (the VectorIndex of the spec returns
  fewer pairs instead). That happens when the corpus is longer than the index: after
  the document \<open>''a''\<close> was added, a second \<open>add_documents\<close> that fails in the
  provider leaves two documents and one vector. The loop keeps the pair with the
  label \<open>- 1\<close>, which is no position of the corpus, and returns the last document
  for it.
\<close>

theorem padding_label_is_kept:
  "add_documents failing_encoder one_add [''b''] =
     (Some EmbeddingProviderError,
      \<lparr>documents = [''a'', ''b''], embeddings = [[1]],
       index = Some \<lparr>index_d = 1, index_vectors = [[1]]\<rparr>\<rparr>)
   \<and> format_results [''a'', ''b''] 0 [(1, 0), (FLT_MAX, - 1)] =
     Inr [\<lparr>rank = 1, document = ''a'', score = 1 / 2, distance = 1\<rparr>,
          \<lparr>rank = 2, document = ''b'', score = 0, distance = FLT_MAX\<rparr>]"
  by code_simp

end
